theory Spec2Isabelle
  imports Main "HOL-Library.Log_Nat"
begin

section \<open>JavaScript values used by the scanner\<close>

text \<open>
  The component \<^verbatim>\<open>src/app/BarcodeScanner.tsx\<close> keeps two pieces of state that matter
  here: \<^verbatim>\<open>scannedData : ScannedData[]\<close> and \<^verbatim>\<open>currentParticipant : string | null\<close>.
  A \<^verbatim>\<open>ScannedData\<close> holds a string and a JavaScript \<^verbatim>\<open>number\<close>.

  Strings are \<open>string\<close>; each \<open>char\<close> stands for one code unit in the range 0..255
  (code units above that range are not represented).

  A \<^verbatim>\<open>number\<close> is a double. The only numbers this program ever makes come out of
  \<^verbatim>\<open>parseInt(data, 10)\<close>, so they are \<^verbatim>\<open>NaN\<close>, the two infinities, negative zero,
  or an integer-valued double (\<open>Finite 0\<close> is positive zero).
\<close>

datatype number = NaN | Infinity | NegInfinity | NegZero | Finite int

text \<open>\<^verbatim>\<open>isNaN(x)\<close> on a number.\<close>

definition isNaN :: "number \<Rightarrow> bool" where
  "isNaN x = (x = NaN)"

text \<open>
  \<^verbatim>\<open>x === y\<close> on two numbers: \<^verbatim>\<open>NaN\<close> equals nothing, and the two zeros equal each other.
\<close>

fun strict_eq :: "number \<Rightarrow> number \<Rightarrow> bool" where
  "strict_eq NaN y = False"
| "strict_eq x NaN = False"
| "strict_eq NegZero y = (y = NegZero \<or> y = Finite 0)"
| "strict_eq x NegZero = (x = Finite 0)"
| "strict_eq x y = (x = y)"

text \<open>
  The conversion of a mathematical integer to the nearest double (round to nearest, ties
  to even; a magnitude that rounds to \<open>2 ^ 1024\<close> or more becomes an infinity). A double
  has a 53-bit significand, so an integer of at most 53 bits is kept as it is, and a
  longer one loses its low \<open>floorlog 2 n - 53\<close> bits.
\<close>

definition round_nat :: "nat \<Rightarrow> nat" where
  "round_nat n =
     (let sh = floorlog 2 n - 53 in
      if sh = 0 then n
      else
        let q = n div 2 ^ sh;
            r = n mod 2 ^ sh;
            half = 2 ^ (sh - 1);
            q' = (if half < r \<or> (r = half \<and> odd q) then q + 1 else q)
        in q' * 2 ^ sh)"

definition to_number :: "int \<Rightarrow> number" where
  "to_number i =
     (let m = round_nat (nat \<bar>i\<bar>) in
      if 2 ^ 1024 \<le> m then (if i < 0 then NegInfinity else Infinity)
      else if i < 0 then Finite (- int m) else Finite (int m))"

subsection \<open>\<^verbatim>\<open>parseInt(string, 10)\<close>\<close>

text \<open>
  \<^verbatim>\<open>parseInt\<close> skips leading white space (the language's white space and line
  terminators: code units 9 to 13, 32 and 160 among the first 256), reads an optional
  sign, then the longest run of decimal digits. With no digit the result is \<^verbatim>\<open>NaN\<close>;
  what follows the digits is ignored. A value of zero keeps the sign. With radix 10 no
  \<^verbatim>\<open>0x\<close> prefix is stripped. The digits are read exactly (the language lets an
  implementation replace digits after the 20th by zeros; that option is not taken here).
\<close>

definition isWhiteSpace :: "char \<Rightarrow> bool" where
  "isWhiteSpace c = ((of_char c :: nat) \<in> {9, 10, 11, 12, 13, 32, 160})"

definition isDigit :: "char \<Rightarrow> bool" where
  "isDigit c = (48 \<le> (of_char c :: nat) \<and> (of_char c :: nat) \<le> 57)"

definition digitValue :: "char \<Rightarrow> int" where
  "digitValue c = int (of_char c) - 48"

definition mathInt :: "string \<Rightarrow> int" where
  "mathInt Z = foldl (\<lambda>acc c. acc * 10 + digitValue c) 0 Z"

definition parseInt :: "string \<Rightarrow> number" where
  "parseInt inputString =
     (let S = dropWhile isWhiteSpace inputString;
          sign = (if S \<noteq> [] \<and> hd S = CHR ''-'' then - 1 else (1::int));
          S' = (if S \<noteq> [] \<and> (hd S = CHR ''+'' \<or> hd S = CHR ''-'') then tl S else S);
          Z = takeWhile isDigit S'
      in if Z = [] then NaN
         else if mathInt Z = 0 then (if sign = - 1 then NegZero else Finite 0)
         else to_number (sign * mathInt Z))"

section \<open>The component's state\<close>

record ScannedData =
  participant :: string
  position :: number

record app_state =
  scannedData :: "ScannedData list"
  currentParticipant :: "string option"

text \<open>The state of \<^verbatim>\<open>useState\<close> at the first render: no record, no participant.\<close>

definition initial_state :: app_state where
  "initial_state = \<lparr>scannedData = [], currentParticipant = None\<rparr>"

text \<open>
  The argument of \<^verbatim>\<open>showBanner\<close>, one constructor for each message of the source:
  \<^item> \<open>ParticipantScanned p\<close>: "Participant QR Code scanned! Participant: p. Please scan the finish token."
  \<^item> \<open>ParticipantAlreadyScanned p\<close>: "Participant QR Code already scanned! Participant: p"
  \<^item> \<open>InvalidQRCode\<close>: "Invalid QR Code. The QR code must start with "G10k"."
  \<^item> \<open>FinishTokenScanned p n\<close>: "Finish token scanned! Participant: p, Position: n"
  \<^item> \<open>InvalidFinishToken\<close>: "Invalid Finish Token. The finish token must be a numeric value."
  \<^item> \<open>StorageCleared\<close>: "Storage cleared. All data has been wiped."
\<close>

datatype notice =
    ParticipantScanned string
  | ParticipantAlreadyScanned string
  | InvalidQRCode
  | FinishTokenScanned string number
  | InvalidFinishToken
  | StorageCleared

text \<open>
  What a handler does besides updating the state, in the order of the calls:
  \<^verbatim>\<open>showBanner(message)\<close>, \<^verbatim>\<open>Haptics.notificationAsync(Success)\<close> and
  \<^verbatim>\<open>console.error(message, error)\<close>.
\<close>

datatype effect = ShowBanner notice | HapticSuccess | ConsoleError string

text \<open>The argument of \<^verbatim>\<open>onBarcodeScanned\<close>.\<close>

record BarcodeScanningResult =
  type :: string
  data :: string

text \<open>\<^verbatim>\<open>s.startsWith(searchString)\<close>.\<close>

definition startsWith :: "string \<Rightarrow> string \<Rightarrow> bool" where
  "startsWith s searchString = (take (length searchString) s = searchString)"

text \<open>
  \<^verbatim>\<open>!currentParticipant\<close>: \<^verbatim>\<open>null\<close> and the empty string are the two falsy values of
  \<^verbatim>\<open>string | null\<close>.
\<close>

definition falsy :: "string option \<Rightarrow> bool" where
  "falsy v = (case v of None \<Rightarrow> True | Some s \<Rightarrow> s = [])"

section \<open>The handlers\<close>

text \<open>
  \<^verbatim>\<open>handleBarcodeScanned\<close> (lines 91 to 120). With no current participant the scan is
  read as a participant code; otherwise as a finish token. A finish token whose position
  is already recorded falls through the inner \<^verbatim>\<open>if\<close> without any call: the
  \<^verbatim>\<open>else\<close> branch is commented out in the source.
\<close>

definition handleBarcodeScanned ::
    "BarcodeScanningResult \<Rightarrow> app_state \<Rightarrow> app_state \<times> effect list" where
  "handleBarcodeScanned ev st =
     (if falsy (currentParticipant st) then
        if startsWith (data ev) ''G10k'' then
          if \<not> list_ex (\<lambda>item. participant item = data ev) (scannedData st) then
            (st\<lparr>currentParticipant := Some (data ev)\<rparr>,
             [ShowBanner (ParticipantScanned (data ev)), HapticSuccess])
          else (st, [ShowBanner (ParticipantAlreadyScanned (data ev))])
        else (st, [ShowBanner InvalidQRCode])
      else
        let cp = the (currentParticipant st);
            pos = parseInt (data ev)
        in if \<not> isNaN pos then
             if \<not> list_ex (\<lambda>item. strict_eq (position item) pos) (scannedData st) then
               (st\<lparr>scannedData := scannedData st @ [\<lparr>participant = cp, position = pos\<rparr>],
                   currentParticipant := None\<rparr>,
                [ShowBanner (FinishTokenScanned cp pos), HapticSuccess])
             else (st, [])
           else (st, [ShowBanner InvalidFinishToken]))"

text \<open>
  \<^verbatim>\<open>clearStorage\<close> (lines 46 to 55). \<open>cleared\<close> tells whether
  \<^verbatim>\<open>await AsyncStorage.clear()\<close> resolved; when it rejects, the \<^verbatim>\<open>catch\<close> block logs
  and nothing else runs. The handler calls \<^verbatim>\<open>setScannedData([])\<close> and never
  \<^verbatim>\<open>setCurrentParticipant\<close>.
\<close>

definition clearStorage :: "bool \<Rightarrow> app_state \<Rightarrow> app_state \<times> effect list" where
  "clearStorage cleared st =
     (if cleared then
        (st\<lparr>scannedData := []\<rparr>, [ShowBanner StorageCleared, HapticSuccess])
      else (st, [ConsoleError ''Failed to clear storage'']))"

section \<open>Persistence\<close>

text \<open>
  \<^verbatim>\<open>AsyncStorage\<close> keeps one text for each key. The text written by this program is
  always the result of \<^verbatim>\<open>JSON.stringify\<close>, so a stored text is represented by the
  JSON document it spells: the structure that \<^verbatim>\<open>JSON.stringify\<close> writes down and
  \<^verbatim>\<open>JSON.parse\<close> reads back. A number of a document is the finite double its digits
  denote; the ones written here are integer-valued.
\<close>

datatype json =
    JNull
  | JBool bool
  | JNumber int
  | JString string
  | JArray "json list"
  | JObject "(string \<times> json) list"

text \<open>The values \<^verbatim>\<open>JSON.parse\<close> returns.\<close>

datatype jsval =
    VNull
  | VBool bool
  | VNumber number
  | VString string
  | VArray "jsval list"
  | VObject "(string \<times> jsval) list"

text \<open>
  How \<^verbatim>\<open>JSON.stringify\<close> writes a number: a finite one by its digits (negative zero as
  \<^verbatim>\<open>0\<close>), and \<^verbatim>\<open>NaN\<close> and the infinities as \<^verbatim>\<open>null\<close>.
\<close>

fun serialize_number :: "number \<Rightarrow> json" where
  "serialize_number (Finite i) = JNumber i"
| "serialize_number NegZero = JNumber 0"
| "serialize_number NaN = JNull"
| "serialize_number Infinity = JNull"
| "serialize_number NegInfinity = JNull"

text \<open>
  \<^verbatim>\<open>JSON.stringify(scannedData)\<close>: an array of objects, each with the properties of the
  object literal of line 108 in their order of creation.
\<close>

definition JSON_stringify :: "ScannedData list \<Rightarrow> json" where
  "JSON_stringify xs =
     JArray (map (\<lambda>item. JObject [(''participant'', JString (participant item)),
                                    (''position'', serialize_number (position item))]) xs)"

fun JSON_parse :: "json \<Rightarrow> jsval" where
  "JSON_parse JNull = VNull"
| "JSON_parse (JBool b) = VBool b"
| "JSON_parse (JNumber i) = VNumber (Finite i)"
| "JSON_parse (JString s) = VString s"
| "JSON_parse (JArray xs) = VArray (map JSON_parse xs)"
| "JSON_parse (JObject ps) = VObject (map (\<lambda>(k, v). (k, JSON_parse v)) ps)"

text \<open>The JavaScript value that a well-typed \<^verbatim>\<open>ScannedData[]\<close> is.\<close>

definition value_of :: "ScannedData list \<Rightarrow> jsval" where
  "value_of xs =
     VArray (map (\<lambda>item. VObject [(''participant'', VString (participant item)),
                                   (''position'', VNumber (position item))]) xs)"

type_synonym AsyncStorage = "string \<rightharpoonup> json"

text \<open>
  \<^verbatim>\<open>saveScannedData\<close> (lines 35 to 41). \<open>resolved\<close> tells whether
  \<^verbatim>\<open>await AsyncStorage.setItem(...)\<close> resolved; a rejection is caught and logged.
\<close>

definition saveScannedData ::
    "bool \<Rightarrow> ScannedData list \<Rightarrow> AsyncStorage \<Rightarrow> AsyncStorage \<times> effect list" where
  "saveScannedData resolved xs storage =
     (if resolved then (storage(''scannedData'' \<mapsto> JSON_stringify xs), [])
      else (storage, [ConsoleError ''Failed to save scanned data'']))"

text \<open>
  \<^verbatim>\<open>loadScannedData\<close> (lines 20 to 29). The result is the argument of
  \<^verbatim>\<open>setScannedData\<close>, or \<open>None\<close> when it is not called: nothing is stored under the
  key, or \<^verbatim>\<open>await AsyncStorage.getItem(...)\<close> rejected.
\<close>

definition loadScannedData :: "bool \<Rightarrow> AsyncStorage \<Rightarrow> jsval option \<times> effect list" where
  "loadScannedData resolved storage =
     (if resolved then
        (case storage ''scannedData'' of
           None \<Rightarrow> (None, [])
         | Some storedData \<Rightarrow> (Some (JSON_parse storedData), []))
      else (None, [ConsoleError ''Failed to load scanned data'']))"

section \<open>States of the matcher and reachable states\<close>

text \<open>
  The two states of the matcher, as the handler tells them apart: \<open>Idle\<close> when
  \<^verbatim>\<open>!currentParticipant\<close> holds, \<open>AwaitingFinish st p\<close> when \<open>p\<close> is held.
\<close>

definition Idle :: "app_state \<Rightarrow> bool" where
  "Idle st = falsy (currentParticipant st)"

definition AwaitingFinish :: "app_state \<Rightarrow> string \<Rightarrow> bool" where
  "AwaitingFinish st p = (currentParticipant st = Some p \<and> p \<noteq> [])"

text \<open>
  The states the component can be in after any sequence of scans and presses of the
  "Clear Storage" button, starting from the first render.
\<close>

inductive reachable :: "app_state \<Rightarrow> bool" where
  init: "reachable initial_state"
| scan: "reachable st \<Longrightarrow> reachable (fst (handleBarcodeScanned ev st))"
| reset: "reachable st \<Longrightarrow> reachable (fst (clearStorage cleared st))"

text \<open>No two records of the list have positions that are \<^verbatim>\<open>===\<close>.\<close>

fun no_shared_position :: "ScannedData list \<Rightarrow> bool" where
  "no_shared_position [] = True"
| "no_shared_position (x # xs) =
     (\<not> list_ex (\<lambda>y. strict_eq (position x) (position y)) xs \<and> no_shared_position xs)"


text \<open>
  What every reachable state satisfies: the records have pairwise different participants
  and pairwise different positions, no position is \<^verbatim>\<open>NaN\<close>, every recorded participant
  carries the prefix, and the participant held, if any, carries the prefix and has no
  record yet.
\<close>

definition invariant :: "app_state \<Rightarrow> bool" where
  "invariant st =
     (distinct (map participant (scannedData st)) \<and>
      no_shared_position (scannedData st) \<and>
      list_all (\<lambda>item. \<not> isNaN (position item)) (scannedData st) \<and>
      list_all (\<lambda>item. startsWith (participant item) ''G10k'') (scannedData st) \<and>
      (case currentParticipant st of
         None \<Rightarrow> True
       | Some p \<Rightarrow> startsWith p ''G10k'' \<and>
           \<not> list_ex (\<lambda>item. participant item = p) (scannedData st)))"

text \<open>
  A finish token of 310 digits, the numeral of \<open>10 ^ 309\<close>. A QR code in numeric mode
  holds up to 7089 digits.
\<close>

definition overlong_token :: string where
  "overlong_token = CHR ''1'' # replicate 309 CHR ''0''"





section \<open>Facts about numbers\<close>

lemma strict_eq_refl: "x \<noteq> NaN \<Longrightarrow> strict_eq x x"
  by (cases x) simp_all

lemma strict_eq_sym: "strict_eq x y = strict_eq y x"
  by (cases x; cases y) auto

lemma strict_eq_not_NaN: "strict_eq x y \<Longrightarrow> x \<noteq> NaN \<and> y \<noteq> NaN"
  by (cases x; cases y) auto

lemma round_nat_small: "n < 2 ^ 53 \<Longrightarrow> round_nat n = n"
proof -
  assume "n < 2 ^ 53"
  then have "floorlog 2 n \<le> 53"
    by (simp add: floorlog_le_iff)
  then show ?thesis
    by (simp add: round_nat_def)
qed

lemma to_number_small: "\<bar>i\<bar> < 2 ^ 53 \<Longrightarrow> to_number i = Finite i"
proof -
  assume a: "\<bar>i\<bar> < 2 ^ 53"
  then have "nat \<bar>i\<bar> < 2 ^ 53"
    by (simp add: nat_less_iff)
  then have r: "round_nat (nat \<bar>i\<bar>) = nat \<bar>i\<bar>"
    by (rule round_nat_small)
  have "nat \<bar>i\<bar> < 2 ^ 1024"
    using \<open>nat \<bar>i\<bar> < 2 ^ 53\<close> by (rule less_trans) simp
  then show ?thesis
    using r by (auto simp: to_number_def Let_def)
qed

lemma round_nat_overflow:
  assumes "2 ^ 1024 \<le> n"
  shows "2 ^ 1024 \<le> round_nat n"
proof -
  define fl where "fl = floorlog 2 n"
  define sh where "sh = fl - 53"
  have n0: "0 < n"
    using assms by (metis gr0I not_less zero_less_numeral zero_less_power leD le_zero_eq power_not_zero zero_neq_numeral)
  have bounds: "2 ^ (fl - 1) \<le> n" "n < 2 ^ fl"
    using floorlog_bounds [of n 2] n0 by (simp_all add: fl_def)
  have "(2::nat) ^ 1024 < 2 ^ fl"
    using assms bounds(2) by (rule le_less_trans)
  then have fl: "1024 < fl"
    by (rule power_less_imp_less_exp [rotated]) simp
  then have sh: "sh \<noteq> 0" "fl - 1 = 52 + sh"
    by (simp_all add: sh_def)
  have "2 ^ 52 * 2 ^ sh \<le> n"
    using bounds(1) sh(2) by (simp add: power_add)
  then have q: "2 ^ 52 \<le> n div 2 ^ sh"
    by (simp add: less_eq_div_iff_mult_less_eq)
  have "(2::nat) ^ 1024 \<le> 2 ^ (52 + sh)"
    using fl sh(2) by (intro power_increasing) simp_all
  also have "\<dots> = 2 ^ 52 * 2 ^ sh"
    by (simp add: power_add)
  also have "\<dots> \<le> (n div 2 ^ sh) * 2 ^ sh"
    using q by (rule mult_le_mono1)
  finally have base: "2 ^ 1024 \<le> (n div 2 ^ sh) * 2 ^ sh" .
  have "(n div 2 ^ sh) * 2 ^ sh \<le> round_nat n"
    using sh(1) by (simp add: round_nat_def Let_def fl_def [symmetric] sh_def [symmetric])
  with base show ?thesis
    by (rule le_trans)
qed

lemma to_number_overflow: "2 ^ 1024 \<le> i \<Longrightarrow> to_number i = Infinity"
proof -
  assume a: "2 ^ 1024 \<le> i"
  have "(0::int) < 2 ^ 1024" by simp
  from this a have pos: "0 < i" by (rule less_le_trans)
  have "(2::nat) ^ 1024 \<le> nat \<bar>i\<bar>"
    using a pos by (simp add: le_nat_iff)
  then have "2 ^ 1024 \<le> round_nat (nat \<bar>i\<bar>)"
    by (rule round_nat_overflow)
  then show ?thesis
    using pos by (simp add: to_number_def Let_def)
qed




section \<open>Facts about \<^verbatim>\<open>parseInt\<close>\<close>

lemma to_number_not_NaN: "to_number i \<noteq> NaN"
  by (simp add: to_number_def Let_def)

lemma parseInt_NaN_iff:
  "parseInt s = NaN \<longleftrightarrow>
     takeWhile isDigit
       (let S = dropWhile isWhiteSpace s
        in if S \<noteq> [] \<and> (hd S = CHR ''+'' \<or> hd S = CHR ''-'') then tl S else S) = []"
  by (simp add: parseInt_def Let_def to_number_not_NaN)

lemma parseInt_shape:
  assumes "parseInt s \<noteq> NaN"
  shows "\<exists>ws sg ds rest. s = ws @ sg @ ds @ rest \<and> list_all isWhiteSpace ws \<and>
           (sg = [] \<or> sg = ''+'' \<or> sg = ''-'') \<and> ds \<noteq> [] \<and> list_all isDigit ds"
proof -
  define S where "S = dropWhile isWhiteSpace s"
  define sg where "sg = (if S \<noteq> [] \<and> (hd S = CHR ''+'' \<or> hd S = CHR ''-'') then [hd S] else [])"
  define S' where "S' = (if S \<noteq> [] \<and> (hd S = CHR ''+'' \<or> hd S = CHR ''-'') then tl S else S)"
  have s: "s = takeWhile isWhiteSpace s @ S"
    by (simp add: S_def)
  have S: "S = sg @ S'"
    by (simp add: sg_def S'_def)
  have S'': "S' = takeWhile isDigit S' @ dropWhile isDigit S'"
    by simp
  have ds: "takeWhile isDigit S' \<noteq> []"
    using assms by (auto simp: parseInt_NaN_iff Let_def S_def S'_def split: if_splits)
  have sg: "sg = [] \<or> sg = ''+'' \<or> sg = ''-''"
    by (auto simp: sg_def)
  have ws: "list_all isWhiteSpace (takeWhile isWhiteSpace s)"
    by (simp add: list_all_iff) (meson set_takeWhileD)
  have dg: "list_all isDigit (takeWhile isDigit S')"
    by (simp add: list_all_iff) (meson set_takeWhileD)
  have "s = takeWhile isWhiteSpace s @ sg @ takeWhile isDigit S' @ dropWhile isDigit S'"
    using s S S'' by simp
  with ws sg ds dg show ?thesis
    by blast
qed

text \<open>
  White space before the sign and anything after the digits do not matter, and a run of
  digits below \<open>2 ^ 53\<close> is read as the integer it spells.
\<close>

lemma isDigit_not_isWhiteSpace: "isDigit c \<Longrightarrow> \<not> isWhiteSpace c"
  by (auto simp: isDigit_def isWhiteSpace_def)

lemma isDigit_not_sign: "isDigit c \<Longrightarrow> c \<noteq> CHR ''+'' \<and> c \<noteq> CHR ''-''"
  by (auto simp: isDigit_def)

lemma sign_not_isWhiteSpace: "\<not> isWhiteSpace CHR ''+''" "\<not> isWhiteSpace CHR ''-''"
  by (simp_all add: isWhiteSpace_def)

lemma takeWhile_digits_rest:
  assumes "list_all isDigit ds" and "rest = [] \<or> \<not> isDigit (hd rest)"
  shows "takeWhile isDigit (ds @ rest) = ds"
proof -
  have "takeWhile isDigit rest = []"
    using assms(2) by (cases rest) simp_all
  with assms(1) show ?thesis
    by (simp add: list_all_iff takeWhile_append2)
qed

lemma parseInt_signed_digits:
  assumes "sg = [] \<or> sg = ''+'' \<or> sg = ''-''"
    and "ds \<noteq> []" and "list_all isDigit ds"
    and "rest = [] \<or> \<not> isDigit (hd rest)"
  shows "parseInt (sg @ ds @ rest) =
     (if mathInt ds = 0 then (if sg = ''-'' then NegZero else Finite 0)
      else to_number ((if sg = ''-'' then - 1 else 1) * mathInt ds))"
proof -
  obtain d ds' where ds: "ds = d # ds'"
    using assms(2) by (cases ds) auto
  with assms(3) have d: "isDigit d"
    by simp
  note tw = takeWhile_digits_rest [OF assms(3) assms(4)]
  from assms(1) show ?thesis
  proof (elim disjE)
    assume "sg = []"
    moreover have "dropWhile isWhiteSpace (ds @ rest) = ds @ rest"
      using d by (simp add: ds isDigit_not_isWhiteSpace)
    moreover have "hd (ds @ rest) \<noteq> CHR ''+''" "hd (ds @ rest) \<noteq> CHR ''-''"
      using d by (simp_all add: ds isDigit_not_sign)
    ultimately show ?thesis
      using assms(2) by (simp add: parseInt_def Let_def tw)
  next
    assume "sg = ''+''"
    then show ?thesis
      using assms(2) by (simp add: parseInt_def Let_def tw sign_not_isWhiteSpace)
  next
    assume "sg = ''-''"
    then show ?thesis
      using assms(2) by (simp add: parseInt_def Let_def tw sign_not_isWhiteSpace)
  qed
qed

lemma dropWhile_isWhiteSpace_padding:
  assumes "list_all isWhiteSpace ws"
    and "sg = [] \<or> sg = ''+'' \<or> sg = ''-''"
    and "ds \<noteq> []" and "list_all isDigit ds"
  shows "dropWhile isWhiteSpace (ws @ sg @ ds @ rest) = sg @ ds @ rest"
proof -
  obtain d ds' where ds: "ds = d # ds'"
    using assms(3) by (cases ds) auto
  with assms(4) have d: "\<not> isWhiteSpace d"
    by (simp add: isDigit_not_isWhiteSpace)
  have "dropWhile isWhiteSpace (sg @ ds @ rest) = sg @ ds @ rest"
    using assms(2) d by (auto simp: ds sign_not_isWhiteSpace)
  with assms(1) show ?thesis
    by (simp add: list_all_iff dropWhile_append2)
qed

lemma parseInt_ignores_padding:
  assumes "list_all isWhiteSpace ws"
    and "sg = [] \<or> sg = ''+'' \<or> sg = ''-''"
    and "ds \<noteq> []" and "list_all isDigit ds"
    and "rest = [] \<or> \<not> isDigit (hd rest)"
  shows "parseInt (ws @ sg @ ds @ rest) = parseInt (sg @ ds) \<and> parseInt (sg @ ds) \<noteq> NaN"
proof -
  let ?V = "if mathInt ds = 0 then (if sg = ''-'' then NegZero else Finite 0)
      else to_number ((if sg = ''-'' then - 1 else 1) * mathInt ds)"
  have r1: "parseInt (sg @ ds @ rest) = ?V"
    by (rule parseInt_signed_digits [OF assms(2-5)])
  have r2: "parseInt (sg @ ds) = ?V"
    using parseInt_signed_digits [OF assms(2-4), of "[]"] by simp
  have a: "dropWhile isWhiteSpace (ws @ sg @ ds @ rest) = dropWhile isWhiteSpace (sg @ ds @ rest)"
    using dropWhile_isWhiteSpace_padding [OF assms(1-4), of rest]
      dropWhile_isWhiteSpace_padding [of "[]" sg ds rest] assms(2-4)
    by simp
  have "parseInt (ws @ sg @ ds @ rest) = parseInt (sg @ ds @ rest)"
    by (simp add: parseInt_def a)
  with r1 r2 have eq: "parseInt (ws @ sg @ ds @ rest) = parseInt (sg @ ds)"
    by simp
  have "?V \<noteq> NaN"
    by (simp add: to_number_not_NaN)
  with r2 eq show ?thesis
    by simp
qed

lemma foldl_digits_nonneg:
  "list_all isDigit ds \<Longrightarrow> 0 \<le> a \<Longrightarrow> 0 \<le> foldl (\<lambda>acc c. acc * 10 + digitValue c) a ds"
proof (induction ds arbitrary: a)
  case Nil
  then show ?case by simp
next
  case (Cons d ds)
  then have "0 \<le> digitValue d"
    by (simp add: isDigit_def digitValue_def)
  with Cons.prems have "0 \<le> a * 10 + digitValue d"
    by simp
  with Cons show ?case
    by simp
qed

lemma mathInt_nonneg: "list_all isDigit ds \<Longrightarrow> 0 \<le> mathInt ds"
  by (simp add: mathInt_def foldl_digits_nonneg)

lemma parseInt_digits:
  assumes "ds \<noteq> []" and "list_all isDigit ds" and "mathInt ds < 2 ^ 53"
  shows "parseInt ds = Finite (mathInt ds) \<and>
         parseInt (CHR ''+'' # ds) = Finite (mathInt ds) \<and>
         (mathInt ds \<noteq> 0 \<longrightarrow> parseInt (CHR ''-'' # ds) = Finite (- mathInt ds))"
proof -
  have small: "\<bar>mathInt ds\<bar> < 2 ^ 53" "\<bar>- mathInt ds\<bar> < 2 ^ 53"
    using mathInt_nonneg [OF assms(2)] assms(3) by simp_all
  have "parseInt ds = Finite (mathInt ds)"
    using parseInt_signed_digits [of "[]" ds "[]"] assms(1,2) to_number_small [OF small(1)]
    by simp
  moreover have "parseInt (CHR ''+'' # ds) = Finite (mathInt ds)"
    using parseInt_signed_digits [of "''+''" ds "[]"] assms(1,2) to_number_small [OF small(1)]
    by simp
  moreover have "mathInt ds \<noteq> 0 \<longrightarrow> parseInt (CHR ''-'' # ds) = Finite (- mathInt ds)"
    using parseInt_signed_digits [of "''-''" ds "[]"] assms(1,2) to_number_small [OF small(2)]
    by simp
  ultimately show ?thesis
    by blast
qed







text \<open>The equations that evaluate \<^verbatim>\<open>parseInt\<close> on a short literal.\<close>

lemmas parseInt_eval =
  parseInt_def isWhiteSpace_def isDigit_def mathInt_def digitValue_def Let_def to_number_small

lemma foldl_digits_zeros:
  "foldl (\<lambda>acc c. acc * 10 + digitValue c) a (replicate n CHR ''0'') = a * 10 ^ n"
  by (induction n arbitrary: a) (simp_all add: digitValue_def)

lemma mathInt_overlong_token: "mathInt overlong_token = 10 ^ 309"
proof -
  have one: "digitValue CHR ''1'' = 1"
    by (simp add: digitValue_def)
  show ?thesis
    by (simp add: mathInt_def overlong_token_def foldl_digits_zeros one)
qed

lemma takeWhile_overlong_token: "takeWhile isDigit overlong_token = overlong_token"
  by (simp add: overlong_token_def isDigit_def)

lemma parseInt_overlong_token: "parseInt overlong_token = Infinity"
proof -
  have S: "dropWhile isWhiteSpace overlong_token = overlong_token"
    by (simp add: overlong_token_def isWhiteSpace_def)
  have hd: "hd overlong_token = CHR ''1''" "overlong_token \<noteq> []"
    by (simp_all add: overlong_token_def)
  have big: "(2::int) ^ 1024 \<le> 10 ^ 309"
    by simp
  have nz: "(10::int) ^ 309 \<noteq> 0"
    by simp
  show ?thesis
    unfolding parseInt_def Let_def S
    by (simp only: hd takeWhile_overlong_token mathInt_overlong_token to_number_overflow [OF big] nz
        if_False if_True mult_1 char.inject simp_thms)
qed

section \<open>Facts about the handlers\<close>

lemma handle_awaiting:
  assumes "AwaitingFinish st p"
  shows "handleBarcodeScanned ev st =
     (if \<not> isNaN (parseInt (data ev)) then
        if \<not> list_ex (\<lambda>item. strict_eq (position item) (parseInt (data ev))) (scannedData st) then
          (st\<lparr>scannedData :=
                scannedData st @ [\<lparr>participant = p, position = parseInt (data ev)\<rparr>],
              currentParticipant := None\<rparr>,
           [ShowBanner (FinishTokenScanned p (parseInt (data ev))), HapticSuccess])
        else (st, [])
      else (st, [ShowBanner InvalidFinishToken]))"
  using assms
  by (simp add: handleBarcodeScanned_def Let_def AwaitingFinish_def falsy_def)

lemma handle_idle:
  assumes "Idle st"
  shows "handleBarcodeScanned ev st =
     (if startsWith (data ev) ''G10k'' then
        if \<not> list_ex (\<lambda>item. participant item = data ev) (scannedData st) then
          (st\<lparr>currentParticipant := Some (data ev)\<rparr>,
           [ShowBanner (ParticipantScanned (data ev)), HapticSuccess])
        else (st, [ShowBanner (ParticipantAlreadyScanned (data ev))])
      else (st, [ShowBanner InvalidQRCode]))"
  using assms
  by (simp add: handleBarcodeScanned_def Idle_def)

lemma Idle_or_AwaitingFinish: "Idle st \<or> (\<exists>p. AwaitingFinish st p)"
  by (cases "currentParticipant st") (simp_all add: Idle_def AwaitingFinish_def falsy_def)

lemma scan_participant_initial:
  "fst (handleBarcodeScanned \<lparr>type = ''qr'', data = ''G10k042''\<rparr> initial_state) =
     \<lparr>scannedData = [], currentParticipant = Some ''G10k042''\<rparr>"
  by (simp add: handleBarcodeScanned_def initial_state_def falsy_def startsWith_def)

lemma awaiting_example:
  "AwaitingFinish \<lparr>scannedData = [], currentParticipant = Some ''G10k042''\<rparr> ''G10k042''"
  by (simp add: AwaitingFinish_def)

lemma scan_overlong_token:
  "fst (handleBarcodeScanned \<lparr>type = ''qr'', data = overlong_token\<rparr>
      (fst (handleBarcodeScanned \<lparr>type = ''qr'', data = ''G10k042''\<rparr> initial_state))) =
     \<lparr>scannedData = [\<lparr>participant = ''G10k042'', position = Infinity\<rparr>],
      currentParticipant = None\<rparr>"
  by (simp add: scan_participant_initial handle_awaiting [OF awaiting_example] isNaN_def
      parseInt_overlong_token)


text \<open>The equations that evaluate a run of the handlers on literals.\<close>

lemmas run_eval =
  handleBarcodeScanned_def clearStorage_def initial_state_def falsy_def startsWith_def
  isNaN_def parseInt_eval

section \<open>The invariant of the reachable states\<close>

lemma no_shared_position_append:
  "no_shared_position (xs @ [r]) =
     (no_shared_position xs \<and> \<not> list_ex (\<lambda>item. strict_eq (position item) (position r)) xs)"
  by (induction xs) (auto simp: list_ex_iff strict_eq_sym)

lemma no_shared_position_distinct:
  "no_shared_position xs \<Longrightarrow> list_all (\<lambda>item. \<not> isNaN (position item)) xs \<Longrightarrow>
   distinct (map position xs)"
proof (induction xs)
  case Nil
  then show ?case by simp
next
  case (Cons x xs)
  have "position x \<notin> position ` set xs"
  proof
    assume "position x \<in> position ` set xs"
    then obtain y where y: "y \<in> set xs" "position x = position y"
      by blast
    from Cons.prems(2) have "position x \<noteq> NaN"
      by (simp add: isNaN_def)
    then have "strict_eq (position x) (position y)"
      using y(2) strict_eq_refl by metis
    with y(1) Cons.prems(1) show False
      by (auto simp: list_ex_iff)
  qed
  with Cons show ?case
    by simp
qed

lemma invariant_initial: "invariant initial_state"
  by (simp add: invariant_def initial_state_def)

lemma startsWith_G10k_nonempty: "startsWith p ''G10k'' \<Longrightarrow> p \<noteq> []"
  by (auto simp: startsWith_def)

lemma invariant_scan:
  assumes "invariant st"
  shows "invariant (fst (handleBarcodeScanned ev st))"
proof -
  consider (idle) "Idle st" | (awaiting) p where "AwaitingFinish st p"
    using Idle_or_AwaitingFinish by blast
  then show ?thesis
  proof cases
    case idle
    have none: "currentParticipant st = None"
    proof (cases "currentParticipant st")
      case None
      then show ?thesis .
    next
      case (Some p)
      with assms have "startsWith p ''G10k''"
        by (simp add: invariant_def)
      then have "p \<noteq> []"
        by (rule startsWith_G10k_nonempty)
      with Some idle show ?thesis
        by (simp add: Idle_def falsy_def)
    qed
    with assms show ?thesis
      by (simp add: handle_idle [OF idle] invariant_def)
  next
    case awaiting
    then have cp: "currentParticipant st = Some p"
      by (simp add: AwaitingFinish_def)
    with assms have fresh: "\<not> list_ex (\<lambda>item. participant item = p) (scannedData st)"
      and pre: "startsWith p ''G10k''"
      by (simp_all add: invariant_def)
    from fresh have "p \<notin> participant ` set (scannedData st)"
      by (auto simp: list_ex_iff)
    with assms pre show ?thesis
      by (simp add: handle_awaiting [OF awaiting] invariant_def no_shared_position_append cp)
  qed
qed

lemma invariant_reset:
  assumes "invariant st"
  shows "invariant (fst (clearStorage cleared st))"
  using assms
  by (cases "currentParticipant st") (simp_all add: clearStorage_def invariant_def)

lemma reachable_invariant: "reachable st \<Longrightarrow> invariant st"
  by (induction rule: reachable.induct)
    (simp_all add: invariant_initial invariant_scan invariant_reset)

lemma reachable_participants_prefixed:
  "reachable st \<Longrightarrow> list_all (\<lambda>item. startsWith (participant item) ''G10k'') (scannedData st)"
  by (drule reachable_invariant) (simp add: invariant_def)

section \<open>Persistence of lists with finite positions\<close>

text \<open>
  A list whose positions are all finite (and not negative zero) is read back as it was
  written.
\<close>

lemma roundtrip_finite:
  assumes "\<forall>item \<in> set xs. \<exists>i. position item = Finite i"
  shows "fst (loadScannedData True (fst (saveScannedData True xs storage))) = Some (value_of xs)"
proof -
  have "JSON_parse (JSON_stringify xs) = value_of xs"
    using assms by (auto simp: JSON_stringify_def value_of_def)
  then show ?thesis
    by (simp add: loadScannedData_def saveScannedData_def)
qed

section \<open>The claims\<close>

subsection \<open>C1: the "Clear Storage" button\<close>

text \<open>
  Claim C1 says that \<^verbatim>\<open>reset()\<close>, from every prior state, yields an empty record list
  and the idle state, and shows the "cleared" notice. \<^verbatim>\<open>clearStorage\<close> never touches
  \<^verbatim>\<open>currentParticipant\<close>: pressed after a participant has been scanned, it leaves the
  matcher waiting for that participant's finish token.
\<close>

theorem reset_keeps_pending_counterexample:
  "\<not> Idle (fst (clearStorage True
       (fst (handleBarcodeScanned \<lparr>type = ''qr'', data = ''G10k042''\<rparr> initial_state))))"
  by (simp add: scan_participant_initial clearStorage_def Idle_def falsy_def)

text \<open>
  Claim C1 as amended: when \<^verbatim>\<open>AsyncStorage.clear()\<close> succeeds, \<^verbatim>\<open>clearStorage\<close> empties
  the record list and shows the "cleared" notice (with the success haptic), and it keeps
  the held participant as it was, so the state after it is idle exactly when the state
  before it was. When \<^verbatim>\<open>AsyncStorage.clear()\<close> fails the state is kept and the failure is
  logged.
\<close>

theorem reset_keeps_pending:
  "scannedData (fst (clearStorage True st)) = [] \<and>
   currentParticipant (fst (clearStorage True st)) = currentParticipant st \<and>
   Idle (fst (clearStorage True st)) = Idle st \<and>
   snd (clearStorage True st) = [ShowBanner StorageCleared, HapticSuccess] \<and>
   clearStorage False st = (st, [ConsoleError ''Failed to clear storage''])"
  by (simp add: clearStorage_def Idle_def)

subsection \<open>C2: the positions that are recorded\<close>




subsection \<open>C3: what holds in every reachable state\<close>

text \<open>
  Claim C3: in every state reachable from the first render by scans and presses of the
  clear button, at most one participant is held (the component has a single
  \<^verbatim>\<open>currentParticipant\<close>), no two records have the same participant, and no two records
  have the same position, whether positions are compared as values or with \<^verbatim>\<open>===\<close>.
\<close>

theorem reachable_records_unique:
  assumes "reachable st"
  shows "card {p. currentParticipant st = Some p} \<le> 1 \<and>
         distinct (map participant (scannedData st)) \<and>
         distinct (map position (scannedData st)) \<and>
         no_shared_position (scannedData st)"
proof -
  have inv: "invariant st"
    using assms by (rule reachable_invariant)
  have one: "card {p. currentParticipant st = Some p} \<le> 1"
  proof (cases "currentParticipant st")
    case None
    then show ?thesis by simp
  next
    case (Some q)
    then have "{p. currentParticipant st = Some p} = {q}"
      by (simp add: set_eq_iff)
    then show ?thesis by simp
  qed
  from inv have "distinct (map position (scannedData st))"
    by (simp add: invariant_def no_shared_position_distinct)
  with inv one show ?thesis
    by (simp add: invariant_def)
qed

text \<open>
  Claim C3 at a state with two records and a held participant, reached by scanning
  \<^verbatim>\<open>G10k042\<close>, pressing the clear button (the participant stays held), scanning \<^verbatim>\<open>17\<close>,
  \<^verbatim>\<open>G10k042\<close> again (refused: already recorded), \<^verbatim>\<open>G10k7\<close>, \<^verbatim>\<open>17\<close> again (ignored:
  position taken), \<^verbatim>\<open>18\<close>, and \<^verbatim>\<open>G10k9\<close>.
\<close>

theorem reachable_records_unique_witness:
  "fst (handleBarcodeScanned \<lparr>type = ''qr'', data = ''G10k9''\<rparr>
    (fst (handleBarcodeScanned \<lparr>type = ''code39'', data = ''18''\<rparr>
      (fst (handleBarcodeScanned \<lparr>type = ''code39'', data = ''17''\<rparr>
        (fst (handleBarcodeScanned \<lparr>type = ''qr'', data = ''G10k7''\<rparr>
          (fst (handleBarcodeScanned \<lparr>type = ''qr'', data = ''G10k042''\<rparr>
            (fst (handleBarcodeScanned \<lparr>type = ''code39'', data = ''17''\<rparr>
              (fst (clearStorage True
                (fst (handleBarcodeScanned \<lparr>type = ''qr'', data = ''G10k042''\<rparr>
                  initial_state))))))))))))))) =
     \<lparr>scannedData = [\<lparr>participant = ''G10k042'', position = Finite 17\<rparr>,
                      \<lparr>participant = ''G10k7'', position = Finite 18\<rparr>],
      currentParticipant = Some ''G10k9''\<rparr> \<and>
   reachable
     \<lparr>scannedData = [\<lparr>participant = ''G10k042'', position = Finite 17\<rparr>,
                      \<lparr>participant = ''G10k7'', position = Finite 18\<rparr>],
      currentParticipant = Some ''G10k9''\<rparr> \<and>
   card {p. currentParticipant
     \<lparr>scannedData = [\<lparr>participant = ''G10k042'', position = Finite 17\<rparr>,
                      \<lparr>participant = ''G10k7'', position = Finite 18\<rparr>],
      currentParticipant = Some ''G10k9''\<rparr> = Some p} \<le> 1 \<and>
   distinct (map participant
     [\<lparr>participant = ''G10k042'', position = Finite 17\<rparr>,
      \<lparr>participant = ''G10k7'', position = Finite 18\<rparr>]) \<and>
   distinct (map position
     [\<lparr>participant = ''G10k042'', position = Finite 17\<rparr>,
      \<lparr>participant = ''G10k7'', position = Finite 18\<rparr>]) \<and>
   no_shared_position
     [\<lparr>participant = ''G10k042'', position = Finite 17\<rparr>,
      \<lparr>participant = ''G10k7'', position = Finite 18\<rparr>]"
proof -
  let ?run = "fst (handleBarcodeScanned \<lparr>type = ''qr'', data = ''G10k9''\<rparr>
    (fst (handleBarcodeScanned \<lparr>type = ''code39'', data = ''18''\<rparr>
      (fst (handleBarcodeScanned \<lparr>type = ''code39'', data = ''17''\<rparr>
        (fst (handleBarcodeScanned \<lparr>type = ''qr'', data = ''G10k7''\<rparr>
          (fst (handleBarcodeScanned \<lparr>type = ''qr'', data = ''G10k042''\<rparr>
            (fst (handleBarcodeScanned \<lparr>type = ''code39'', data = ''17''\<rparr>
              (fst (clearStorage True
                (fst (handleBarcodeScanned \<lparr>type = ''qr'', data = ''G10k042''\<rparr>
                  initial_state)))))))))))))))"
  let ?S = "\<lparr>scannedData = [\<lparr>participant = ''G10k042'', position = Finite 17\<rparr>,
                      \<lparr>participant = ''G10k7'', position = Finite 18\<rparr>],
      currentParticipant = Some ''G10k9''\<rparr>"
  have eq: "?run = ?S"
    by (simp add: run_eval)
  have "reachable ?run"
    by (intro reachable.scan reachable.reset reachable.init)
  then have r: "reachable ?S"
    by (simp only: eq)
  from reachable_records_unique [OF r] have
    "card {p. currentParticipant ?S = Some p} \<le> 1 \<and>
     distinct (map participant (scannedData ?S)) \<and>
     distinct (map position (scannedData ?S)) \<and>
     no_shared_position (scannedData ?S)" .
  then have c: "card {p. currentParticipant ?S = Some p} \<le> 1"
    and d: "distinct (map participant (scannedData ?S)) \<and>
     distinct (map position (scannedData ?S)) \<and>
     no_shared_position (scannedData ?S)"
    by blast+
  from d have d': "distinct (map participant
     [\<lparr>participant = ''G10k042'', position = Finite 17\<rparr>,
      \<lparr>participant = ''G10k7'', position = Finite 18\<rparr>]) \<and>
   distinct (map position
     [\<lparr>participant = ''G10k042'', position = Finite 17\<rparr>,
      \<lparr>participant = ''G10k7'', position = Finite 18\<rparr>]) \<and>
   no_shared_position
     [\<lparr>participant = ''G10k042'', position = Finite 17\<rparr>,
      \<lparr>participant = ''G10k7'', position = Finite 18\<rparr>]"
    by (simp only: app_state.simps)
  from eq r c d' show ?thesis
    by blast
qed

subsection \<open>C4: a finish token whose position is taken\<close>

text \<open>
  Claim C4: while a participant is held, a payload that \<^verbatim>\<open>parseInt\<close> reads as a number
  whose value some record already has (compared with \<^verbatim>\<open>===\<close>, as the handler does) changes
  nothing: the state, and with it the record list and the held participant, is the same,
  and no banner is shown.
\<close>

theorem duplicate_position_ignored:
  assumes "AwaitingFinish st p"
    and "\<not> isNaN (parseInt (data ev))"
    and "list_ex (\<lambda>item. strict_eq (position item) (parseInt (data ev))) (scannedData st)"
  shows "handleBarcodeScanned ev st = (st, [])"
  using assms
  by (simp add: handle_awaiting)

text \<open>
  Claim C4 at the scan of \<^verbatim>\<open>17\<close> while \<^verbatim>\<open>G10k7\<close> is held and position 17 is recorded.
\<close>

theorem duplicate_position_ignored_witness:
  "AwaitingFinish
     \<lparr>scannedData = [\<lparr>participant = ''G10k042'', position = Finite 17\<rparr>],
      currentParticipant = Some ''G10k7''\<rparr> ''G10k7'' \<and>
   \<not> isNaN (parseInt ''17'') \<and>
   handleBarcodeScanned \<lparr>type = ''code39'', data = ''17''\<rparr>
     \<lparr>scannedData = [\<lparr>participant = ''G10k042'', position = Finite 17\<rparr>],
      currentParticipant = Some ''G10k7''\<rparr> =
     (\<lparr>scannedData = [\<lparr>participant = ''G10k042'', position = Finite 17\<rparr>],
       currentParticipant = Some ''G10k7''\<rparr>, [])"
proof -
  have a: "AwaitingFinish
     \<lparr>scannedData = [\<lparr>participant = ''G10k042'', position = Finite 17\<rparr>],
      currentParticipant = Some ''G10k7''\<rparr> ''G10k7''"
    by (simp add: AwaitingFinish_def)
  have v: "parseInt ''17'' = Finite 17"
    by (simp add: parseInt_eval)
  from a v duplicate_position_ignored [OF a, of "\<lparr>type = ''code39'', data = ''17''\<rparr>"]
  show ?thesis
    by (simp add: isNaN_def)
qed

subsection \<open>C5: a finish token whose position is free\<close>

text \<open>
  Claim C5: while a participant is held, a payload that \<^verbatim>\<open>parseInt\<close> reads as a number
  that no record has yet appends one record, of the held participant with that number,
  at the end of the list, releases the participant, leaves the matcher idle, and shows
  the "finish token scanned" banner (with the success haptic).
\<close>

theorem fresh_position_recorded:
  assumes "AwaitingFinish st p"
    and "\<not> isNaN (parseInt (data ev))"
    and "\<not> list_ex (\<lambda>item. strict_eq (position item) (parseInt (data ev))) (scannedData st)"
  shows "scannedData (fst (handleBarcodeScanned ev st)) =
           scannedData st @ [\<lparr>participant = p, position = parseInt (data ev)\<rparr>] \<and>
         currentParticipant (fst (handleBarcodeScanned ev st)) = None \<and>
         Idle (fst (handleBarcodeScanned ev st)) \<and>
         snd (handleBarcodeScanned ev st) =
           [ShowBanner (FinishTokenScanned p (parseInt (data ev))), HapticSuccess]"
  using assms
  by (simp add: handle_awaiting Idle_def falsy_def)

text \<open>
  Claim C5 at the scan of \<^verbatim>\<open>18\<close> while \<^verbatim>\<open>G10k7\<close> is held and only position 17 is
  recorded.
\<close>

theorem fresh_position_recorded_witness:
  "AwaitingFinish
     \<lparr>scannedData = [\<lparr>participant = ''G10k042'', position = Finite 17\<rparr>],
      currentParticipant = Some ''G10k7''\<rparr> ''G10k7'' \<and>
   \<not> isNaN (parseInt ''18'') \<and>
   handleBarcodeScanned \<lparr>type = ''code39'', data = ''18''\<rparr>
     \<lparr>scannedData = [\<lparr>participant = ''G10k042'', position = Finite 17\<rparr>],
      currentParticipant = Some ''G10k7''\<rparr> =
     (\<lparr>scannedData = [\<lparr>participant = ''G10k042'', position = Finite 17\<rparr>,
                       \<lparr>participant = ''G10k7'', position = Finite 18\<rparr>],
       currentParticipant = None\<rparr>,
      [ShowBanner (FinishTokenScanned ''G10k7'' (Finite 18)), HapticSuccess])"
proof -
  have a: "AwaitingFinish
     \<lparr>scannedData = [\<lparr>participant = ''G10k042'', position = Finite 17\<rparr>],
      currentParticipant = Some ''G10k7''\<rparr> ''G10k7''"
    by (simp add: AwaitingFinish_def)
  have v: "parseInt ''18'' = Finite 18"
    by (simp add: parseInt_eval)
  from a v fresh_position_recorded [OF a, of "\<lparr>type = ''code39'', data = ''18''\<rparr>"]
  show ?thesis
    by (cases "handleBarcodeScanned \<lparr>type = ''code39'', data = ''18''\<rparr>
          \<lparr>scannedData = [\<lparr>participant = ''G10k042'', position = Finite 17\<rparr>],
           currentParticipant = Some ''G10k7''\<rparr>")
      (simp add: isNaN_def)
qed

subsection \<open>C6: a payload that is not a number\<close>




subsection \<open>C7: a participant that already has a record\<close>

text \<open>
  Claim C7: while no participant is held, the scan of a participant identifier (a payload
  with the prefix \<^verbatim>\<open>G10k\<close>) that some record already has is rejected: the state is the
  same, so it is still idle and the list is the same, and the "already scanned" banner is
  shown. Every participant recorded in a reachable state carries the prefix
  (\<open>reachable_participants_prefixed\<close>).
\<close>

theorem duplicate_participant_rejected:
  assumes "Idle st"
    and "startsWith (data ev) ''G10k''"
    and "list_ex (\<lambda>item. participant item = data ev) (scannedData st)"
  shows "handleBarcodeScanned ev st = (st, [ShowBanner (ParticipantAlreadyScanned (data ev))]) \<and>
         Idle (fst (handleBarcodeScanned ev st))"
  using assms
  by (simp add: handle_idle)

text \<open>Claim C7 at the second scan of \<^verbatim>\<open>G10k042\<close>, recorded with position 17.\<close>

theorem duplicate_participant_rejected_witness:
  "Idle \<lparr>scannedData = [\<lparr>participant = ''G10k042'', position = Finite 17\<rparr>],
         currentParticipant = None\<rparr> \<and>
   startsWith ''G10k042'' ''G10k'' \<and>
   handleBarcodeScanned \<lparr>type = ''qr'', data = ''G10k042''\<rparr>
     \<lparr>scannedData = [\<lparr>participant = ''G10k042'', position = Finite 17\<rparr>],
      currentParticipant = None\<rparr> =
     (\<lparr>scannedData = [\<lparr>participant = ''G10k042'', position = Finite 17\<rparr>],
       currentParticipant = None\<rparr>,
      [ShowBanner (ParticipantAlreadyScanned ''G10k042'')])"
proof -
  have a: "Idle \<lparr>scannedData = [\<lparr>participant = ''G10k042'', position = Finite 17\<rparr>],
         currentParticipant = None\<rparr>"
    by (simp add: Idle_def falsy_def)
  have b: "startsWith ''G10k042'' ''G10k''"
    by (simp add: startsWith_def)
  from a b duplicate_participant_rejected [OF a, of "\<lparr>type = ''qr'', data = ''G10k042''\<rparr>"]
  show ?thesis
    by simp
qed

subsection \<open>C8: writing the list and reading it back\<close>

text \<open>
  Claim C8 says that the record list, written to the storage and read back, is the same
  list. The handler accepts every position that is not \<^verbatim>\<open>NaN\<close>, and a finish token of
  310 digits is read by \<^verbatim>\<open>parseInt\<close> as \<^verbatim>\<open>Infinity\<close>, which \<^verbatim>\<open>JSON.stringify\<close> writes
  as \<^verbatim>\<open>null\<close>. After the scans of \<^verbatim>\<open>G10k042\<close> and of that token the list holds the
  position \<^verbatim>\<open>Infinity\<close>; what is read back holds \<^verbatim>\<open>null\<close> in its place.
\<close>

theorem infinite_position_lost_on_reload:
  "scannedData (fst (handleBarcodeScanned \<lparr>type = ''qr'', data = overlong_token\<rparr>
      (fst (handleBarcodeScanned \<lparr>type = ''qr'', data = ''G10k042''\<rparr> initial_state)))) =
     [\<lparr>participant = ''G10k042'', position = Infinity\<rparr>] \<and>
   fst (loadScannedData True (fst (saveScannedData True
      [\<lparr>participant = ''G10k042'', position = Infinity\<rparr>] Map.empty))) =
     Some (VArray [VObject [(''participant'', VString ''G10k042''), (''position'', VNull)]]) \<and>
   fst (loadScannedData True (fst (saveScannedData True
      [\<lparr>participant = ''G10k042'', position = Infinity\<rparr>] Map.empty))) \<noteq>
     Some (value_of [\<lparr>participant = ''G10k042'', position = Infinity\<rparr>])"
  by (simp add: scan_overlong_token loadScannedData_def saveScannedData_def JSON_stringify_def
      value_of_def)

subsection \<open>C9: a scan never removes or changes a record\<close>

text \<open>
  Claim C9: for every state and every payload, the record list after a scan is the list
  before it, or the list before it with one record added at its end. No record is
  removed, changed or moved, so the order of the list is the order of completion.
\<close>

theorem scan_keeps_or_appends:
  "scannedData (fst (handleBarcodeScanned ev st)) = scannedData st \<or>
   (\<exists>r. scannedData (fst (handleBarcodeScanned ev st)) = scannedData st @ [r])"
  by (simp add: handleBarcodeScanned_def Let_def)

subsection \<open>C10: which payloads count as finish tokens\<close>

text \<open>
  Claim C10: while a participant is held, a payload is rejected as an invalid finish token
  exactly when \<^verbatim>\<open>parseInt(data, 10)\<close> is \<^verbatim>\<open>NaN\<close>; any other payload whose number is not
  recorded yet is recorded with the number \<^verbatim>\<open>parseInt\<close> read. A payload made of white
  space, an optional sign, digits, and then anything that does not start with a digit is
  never rejected, and it is read as the sign and the digits alone are. So \<^verbatim>\<open>17abc\<close>
  counts as 17, \<^verbatim>\<open>-5\<close> as \<open>- 5\<close>, and \<^verbatim>\<open>42\<close> after a space as 42, although none of them
  is a plain numeral.
\<close>

theorem finish_token_valid_iff_parseInt:
  assumes "AwaitingFinish st p"
  shows "(snd (handleBarcodeScanned ev st) = [ShowBanner InvalidFinishToken]) =
           isNaN (parseInt (data ev)) \<and>
         (\<not> isNaN (parseInt (data ev)) \<and>
          \<not> list_ex (\<lambda>item. strict_eq (position item) (parseInt (data ev))) (scannedData st) \<longrightarrow>
            scannedData (fst (handleBarcodeScanned ev st)) =
              scannedData st @ [\<lparr>participant = p, position = parseInt (data ev)\<rparr>]) \<and>
         (data ev = ws @ sg @ ds @ rest \<and> list_all isWhiteSpace ws \<and>
          (sg = [] \<or> sg = ''+'' \<or> sg = ''-'') \<and> ds \<noteq> [] \<and> list_all isDigit ds \<and>
          (rest = [] \<or> \<not> isDigit (hd rest)) \<longrightarrow>
            \<not> isNaN (parseInt (data ev)) \<and> parseInt (data ev) = parseInt (sg @ ds)) \<and>
         parseInt ''17abc'' = Finite 17 \<and>
         parseInt ''-5'' = Finite (- 5) \<and>
         parseInt '' 42'' = Finite 42"
proof -
  have "(snd (handleBarcodeScanned ev st) = [ShowBanner InvalidFinishToken]) =
      isNaN (parseInt (data ev))"
    by (simp add: handle_awaiting [OF assms])
  moreover have "\<not> isNaN (parseInt (data ev)) \<and>
      \<not> list_ex (\<lambda>item. strict_eq (position item) (parseInt (data ev))) (scannedData st) \<longrightarrow>
      scannedData (fst (handleBarcodeScanned ev st)) =
        scannedData st @ [\<lparr>participant = p, position = parseInt (data ev)\<rparr>]"
    by (simp add: handle_awaiting [OF assms])
  moreover have "data ev = ws @ sg @ ds @ rest \<and> list_all isWhiteSpace ws \<and>
      (sg = [] \<or> sg = ''+'' \<or> sg = ''-'') \<and> ds \<noteq> [] \<and> list_all isDigit ds \<and>
      (rest = [] \<or> \<not> isDigit (hd rest)) \<longrightarrow>
      \<not> isNaN (parseInt (data ev)) \<and> parseInt (data ev) = parseInt (sg @ ds)"
    using parseInt_ignores_padding [of ws sg ds rest] by (simp add: isNaN_def)
  moreover have "parseInt ''17abc'' = Finite 17"
    by (simp add: parseInt_eval)
  moreover have "parseInt ''-5'' = Finite (- 5)"
    by (simp add: parseInt_eval)
  moreover have "parseInt '' 42'' = Finite 42"
    by (simp add: parseInt_eval)
  ultimately show ?thesis
    by blast
qed

text \<open>Claim C10 at the scan of \<^verbatim>\<open>17abc\<close> while \<^verbatim>\<open>G10k042\<close> is held.\<close>

theorem finish_token_valid_iff_parseInt_witness:
  "AwaitingFinish \<lparr>scannedData = [], currentParticipant = Some ''G10k042''\<rparr> ''G10k042'' \<and>
   snd (handleBarcodeScanned \<lparr>type = ''code39'', data = ''17abc''\<rparr>
     \<lparr>scannedData = [], currentParticipant = Some ''G10k042''\<rparr>) \<noteq>
     [ShowBanner InvalidFinishToken] \<and>
   scannedData (fst (handleBarcodeScanned \<lparr>type = ''code39'', data = ''17abc''\<rparr>
     \<lparr>scannedData = [], currentParticipant = Some ''G10k042''\<rparr>)) =
     [\<lparr>participant = ''G10k042'', position = Finite 17\<rparr>] \<and>
   parseInt ''17abc'' = parseInt ''17''"
proof -
  have v: "parseInt ''17abc'' = Finite 17"
    by (simp add: parseInt_eval)
  have shape: "list_all isWhiteSpace [] \<and> list_all isDigit ''17'' \<and> \<not> isDigit (hd ''abc'')"
    by (simp add: isDigit_def)
  from awaiting_example v shape
    finish_token_valid_iff_parseInt [OF awaiting_example,
      of "\<lparr>type = ''code39'', data = ''17abc''\<rparr>" "[]" "[]" "''17''" "''abc''"]
  show ?thesis
    by (simp add: isNaN_def parseInt_eval)
qed

end
